theory Spec2Isabelle
  imports Complex_Main "HOL-Library.Sublist"
begin

section \<open>JavaScript strings and values\<close>

text \<open>
  A JavaScript string is a sequence of code units; it is modelled as a \<open>string\<close>, one
  \<open>char\<close> for one code unit, so the model covers the code units below 256. The
  sentinels, the property names and the request phrase are all ASCII.
\<close>

text \<open>
  \<open>String.prototype.trim\<close> removes white space and line terminators from both ends, and
  the class \<open>\s\<close> of a regular expression is the same set: among the code units below
  256 these are TAB, LF, VT, FF, CR, SPACE and NBSP.
\<close>

definition is_ws :: "char \<Rightarrow> bool" where
  "is_ws c = (c \<in> {CHR 0x09, CHR 0x0A, CHR 0x0B, CHR 0x0C, CHR 0x0D, CHR 0x20, CHR 0xA0})"

definition trim :: "string \<Rightarrow> string" where
  "trim s = rev (dropWhile is_ws (rev (dropWhile is_ws s)))"

text \<open>
  \<open>s.indexOf(p)\<close>: the position of the first occurrence of \<open>p\<close> in \<open>s\<close>, or \<open>-1\<close>.
\<close>

fun indexOf :: "string \<Rightarrow> string \<Rightarrow> int" where
  "indexOf [] p = (if p = [] then 0 else -1)"
| "indexOf (c # cs) p =
     (if prefix p (c # cs) then 0
      else (let r = indexOf cs p in if r = -1 then -1 else r + 1))"

text \<open>
  \<open>s.slice(a, b)\<close> and \<open>s.slice(a)\<close>: a negative index counts from the end, both ends
  are clamped to the string, and an empty range gives the empty string.
\<close>

definition slice_index :: "string \<Rightarrow> int \<Rightarrow> nat" where
  "slice_index s i =
     (let n = int (length s)
      in if i < 0 then nat (max (n + i) 0) else nat (min i n))"

definition slice :: "string \<Rightarrow> int \<Rightarrow> int \<Rightarrow> string" where
  "slice s a b =
     (let from = slice_index s a; to = slice_index s b
      in take (to - from) (drop from s))"

definition slice_from :: "string \<Rightarrow> int \<Rightarrow> string" where
  "slice_from s a = drop (slice_index s a) s"

text \<open>
  The values \<open>JSON.parse\<close> produces, which are also the values a message carries in its
  \<open>projectPlan\<close> field after the response body was decoded. An object is the list of
  its own properties in insertion order. A number carries the decimal value of its
  literal; the code below never looks at it.
\<close>

datatype json =
    JNull
  | JBool bool
  | JNum rat
  | JStr string
  | JArr "json list"
  | JObj "(string \<times> json) list"

text \<open>\<open>!v\<close> is false exactly on the truthy values.\<close>

fun truthy :: "json \<Rightarrow> bool" where
  "truthy JNull = False"
| "truthy (JBool b) = b"
| "truthy (JNum n) = (n \<noteq> 0)"
| "truthy (JStr s) = (s \<noteq> [])"
| "truthy (JArr xs) = True"
| "truthy (JObj fs) = True"

datatype js_type = TObject | TBoolean | TNumber | TString

fun typeof :: "json \<Rightarrow> js_type" where
  "typeof JNull = TObject"
| "typeof (JBool b) = TBoolean"
| "typeof (JNum n) = TNumber"
| "typeof (JStr s) = TString"
| "typeof (JArr xs) = TObject"
| "typeof (JObj fs) = TObject"

text \<open>
  \<open>v.k\<close> for a value \<open>v\<close> that passed \<open>!v || typeof v !== "object"\<close>: the own property
  of an object, \<open>undefined\<close> (\<open>None\<close>) when there is none. An array has the properties
  \<open>length\<close> and its indices only, and none of the names read below is one of them.
\<close>

fun get_prop :: "json \<Rightarrow> string \<Rightarrow> json option" where
  "get_prop (JObj fs) k = map_of fs k"
| "get_prop _ k = None"

section \<open>The project plan parser\<close>

definition OPEN :: string where
  "OPEN = ''<project_plan>''"

definition CLOSE :: string where
  "CLOSE = ''</project_plan>''"

record ParsedProjectPlanMessage =
  beforeText :: string
  afterText :: string
  projectPlan :: "json option"

fun isNonEmptyString :: "json option \<Rightarrow> bool" where
  "isNonEmptyString (Some (JStr s)) = (length (trim s) > 0)"
| "isNonEmptyString _ = False"

definition isDeliverable :: "json \<Rightarrow> bool" where
  "isDeliverable v =
     (if \<not> truthy v \<or> typeof v \<noteq> TObject then False
      else isNonEmptyString (get_prop v ''title'') \<and> isNonEmptyString (get_prop v ''description''))"

definition isWorkstream :: "json \<Rightarrow> bool" where
  "isWorkstream v =
     (if \<not> truthy v \<or> typeof v \<noteq> TObject then False
      else (let deliverables = get_prop v ''deliverables''
            in isNonEmptyString (get_prop v ''title'') \<and>
               isNonEmptyString (get_prop v ''description'') \<and>
               (case deliverables of
                  Some (JArr ds) \<Rightarrow> list_all isDeliverable ds
                | _ \<Rightarrow> False)))"

definition isProjectPlan :: "json \<Rightarrow> bool" where
  "isProjectPlan v =
     (if \<not> truthy v \<or> typeof v \<noteq> TObject then False
      else (let workstreams = get_prop v ''workstreams''
            in (case workstreams of
                  Some (JArr ws) \<Rightarrow> list_all isWorkstream ws
                | _ \<Rightarrow> False)))"

record TaggedParts =
  tag_beforeText :: string
  jsonText :: string
  tag_afterText :: string

definition splitByProjectPlanTag :: "string \<Rightarrow> TaggedParts option" where
  "splitByProjectPlanTag content =
     (let start = indexOf content OPEN;
          end = indexOf content CLOSE
      in if start = -1 \<or> end = -1 \<or> end \<le> start then None
         else Some \<lparr>tag_beforeText = slice content 0 start,
                    jsonText = trim (slice content (start + int (length OPEN)) end),
                    tag_afterText = slice_from content (end + int (length CLOSE))\<rparr>)"

text \<open>
  \<open>JSON.parse\<close> belongs to the JavaScript runtime: the parser takes it as the parameter
  \<open>JSON_parse\<close>, which returns the decoded value or the exception it throws. The
  \<open>try\<close> block is a computation that may raise, and \<open>catch\<close> handles every exception.
\<close>

definition try_catch :: "'e + 'a \<Rightarrow> ('e \<Rightarrow> 'e + 'a) \<Rightarrow> 'e + 'a" where
  "try_catch body handler = (case body of Inl e \<Rightarrow> handler e | Inr r \<Rightarrow> Inr r)"

definition parseProjectPlanMessage ::
  "(string \<Rightarrow> 'e + json) \<Rightarrow> string \<Rightarrow> json option \<Rightarrow> 'e + ParsedProjectPlanMessage" where
  "parseProjectPlanMessage JSON_parse content projectPlan_param =
     (case splitByProjectPlanTag content of
        Some tagged \<Rightarrow>
          try_catch
            (case JSON_parse (jsonText tagged) of
               Inl e \<Rightarrow> Inl e
             | Inr parsed \<Rightarrow>
                 Inr \<lparr>beforeText = tag_beforeText tagged,
                      afterText = tag_afterText tagged,
                      projectPlan = (if isProjectPlan parsed then Some parsed else None)\<rparr>)
            (\<lambda>e. Inr \<lparr>beforeText = content, afterText = [], projectPlan = None\<rparr>)
      | None \<Rightarrow>
          (case projectPlan_param of
             Some p \<Rightarrow>
               if truthy p \<and> isProjectPlan p
               then Inr \<lparr>beforeText = content, afterText = [], projectPlan = Some p\<rparr>
               else Inr \<lparr>beforeText = content, afterText = [], projectPlan = None\<rparr>
           | None \<Rightarrow> Inr \<lparr>beforeText = content, afterText = [], projectPlan = None\<rparr>))"

section \<open>The plan as the interface types describe it\<close>

text \<open>
  The interfaces \<open>Deliverable\<close>, \<open>Workstream\<close> and \<open>ProjectPlan\<close>: a deliverable has a
  title and a description, a workstream a title, a description and its deliverables, a
  plan its workstreams.
\<close>

datatype Deliverable = Deliverable string string

datatype Workstream = Workstream string string "Deliverable list"

datatype ProjectPlan = ProjectPlan "Workstream list"

text \<open>The JavaScript value of a typed plan: objects with exactly the declared fields.\<close>

fun json_of_deliverable :: "Deliverable \<Rightarrow> json" where
  "json_of_deliverable (Deliverable t d) =
     JObj [(''title'', JStr t), (''description'', JStr d)]"

fun json_of_workstream :: "Workstream \<Rightarrow> json" where
  "json_of_workstream (Workstream t d ds) =
     JObj [(''title'', JStr t), (''description'', JStr d),
           (''deliverables'', JArr (map json_of_deliverable ds))]"

fun json_of_plan :: "ProjectPlan \<Rightarrow> json" where
  "json_of_plan (ProjectPlan ws) = JObj [(''workstreams'', JArr (map json_of_workstream ws))]"

text \<open>
  The schema of the plan: every title and every description is non-empty after
  trimming. The sequences of workstreams and of deliverables may be empty.
\<close>

fun deliverable_ok :: "Deliverable \<Rightarrow> bool" where
  "deliverable_ok (Deliverable t d) = (trim t \<noteq> [] \<and> trim d \<noteq> [])"

fun workstream_ok :: "Workstream \<Rightarrow> bool" where
  "workstream_ok (Workstream t d ds) =
     (trim t \<noteq> [] \<and> trim d \<noteq> [] \<and> list_all deliverable_ok ds)"

fun plan_ok :: "ProjectPlan \<Rightarrow> bool" where
  "plan_ok (ProjectPlan ws) = list_all workstream_ok ws"

section \<open>The message body\<close>

datatype role = User | Assistant

text \<open>A message: its role, its content and the optional \<open>projectPlan\<close> field.\<close>

datatype Message = Message role string "json option"

text \<open>
  The children of the element \<open>MessageBody\<close> returns: a \<open>div\<close> holding text, or the
  plan preview. A child guarded by \<open>cond &&\<close> is rendered when \<open>cond\<close> is truthy.
\<close>

datatype element = TextDiv string | ProjectPlanPreview json

definition MessageBody :: "(string \<Rightarrow> 'e + json) \<Rightarrow> Message \<Rightarrow> 'e + element list" where
  "MessageBody JSON_parse message =
     (case message of Message r content message_projectPlan \<Rightarrow>
        (case parseProjectPlanMessage JSON_parse content message_projectPlan of
           Inl e \<Rightarrow> Inl e
         | Inr parsed \<Rightarrow>
             Inr ((if length (trim (beforeText parsed)) > 0
                   then [TextDiv (trim (beforeText parsed))] else []) @
                  (case projectPlan parsed of
                     Some p \<Rightarrow> if truthy p then [ProjectPlanPreview p] else []
                   | None \<Rightarrow> []) @
                  (if length (trim (afterText parsed)) > 0
                   then [TextDiv (trim (afterText parsed))] else []))))"

section \<open>The plan-request detector of the server\<close>

text \<open>
  The regular expression \<open>/project\s+plan/i\<close> is a sequence of terms, each a single
  atom or an atom repeated once or more; an atom is a character or the class \<open>\s\<close>.
\<close>

datatype rx_atom = Chr char | WhiteSpace

datatype rx_term = One rx_atom | Plus rx_atom

text \<open>
  With the flag \<open>i\<close> two code units match when their canonical forms are equal. The
  canonical form of an ASCII letter is its upper case; that of a code unit from 128 on
  is never an ASCII code unit, so it is left as it is here.
\<close>

definition canonicalize :: "char \<Rightarrow> char" where
  "canonicalize c =
     (let n = (of_char c :: nat)
      in if 97 \<le> n \<and> n \<le> 122 then char_of (n - 32) else c)"

fun atom_matches :: "bool \<Rightarrow> rx_atom \<Rightarrow> char \<Rightarrow> bool" where
  "atom_matches ignoreCase (Chr p) c =
     (if ignoreCase then canonicalize p = canonicalize c else p = c)"
| "atom_matches ignoreCase WhiteSpace c = is_ws c"

text \<open>
  Backtracking match of the terms at the start of the text: a repeated atom takes one
  code unit and then either repeats or hands over to the rest of the pattern.
\<close>

fun match_here :: "bool \<Rightarrow> rx_term list \<Rightarrow> string \<Rightarrow> bool" where
  "match_here i [] s = True"
| "match_here i (One a # r) [] = False"
| "match_here i (One a # r) (c # cs) = (atom_matches i a c \<and> match_here i r cs)"
| "match_here i (Plus a # r) [] = False"
| "match_here i (Plus a # r) (c # cs) =
     (atom_matches i a c \<and> (match_here i (Plus a # r) cs \<or> match_here i r cs))"

text \<open>\<open>RegExp.prototype.test\<close> without the flag \<open>g\<close>: a match at any start position.\<close>

fun rx_test :: "bool \<Rightarrow> rx_term list \<Rightarrow> string \<Rightarrow> bool" where
  "rx_test i r [] = match_here i r []"
| "rx_test i r (c # cs) = (match_here i r (c # cs) \<or> rx_test i r cs)"

definition project_plan_rx :: "rx_term list" where
  "project_plan_rx =
     map (\<lambda>c. One (Chr c)) ''project'' @ [Plus WhiteSpace] @ map (\<lambda>c. One (Chr c)) ''plan''"

definition isProjectPlanRequest :: "string \<Rightarrow> bool" where
  "isProjectPlanRequest text = rx_test True project_plan_rx text"

text \<open>\<open>lines.join('\n')\<close>.\<close>

fun join_lines :: "string list \<Rightarrow> string" where
  "join_lines [] = []"
| "join_lines [l] = l"
| "join_lines (l # ls) = l @ [CHR 0x0A] @ join_lines ls"

definition buildProjectPlanSystemPrompt :: string where
  \<open>buildProjectPlanSystemPrompt = join_lines
     [''When (and only when) the user is requesting a project plan, you MUST include exactly one <project_plan>...</project_plan> block inside your response.'',
      ''The content inside <project_plan> must be valid JSON (no markdown fences) with this schema:'',
      ''{"workstreams":[{"title":string,"description":string,"deliverables":[{"title":string,"description":string}]}]}'',
      ''Outside the <project_plan> block, respond normally with helpful natural language.'',
      ''The <project_plan> block MAY appear in the middle of your message (include 1-2 sentences before and after it).'',
      ''Do not include any other <project_plan> blocks. Do not put any extra text inside the tags besides JSON.'']\<close>

text \<open>
  The options of the call \<open>provider.sendMessage(conversationHistory, options)\<close> in the
  handler of \<open>POST /:chatId/messages\<close>, which the handler reaches for a non-blank
  content and an existing chat: \<open>content\<close> is the text of the request body and
  \<open>llmModel\<close> the model of the chat.
\<close>

record SendMessageOptions =
  systemPrompt :: "string option"
  model :: "string option"

definition sendMessageOptions :: "string \<Rightarrow> string option \<Rightarrow> SendMessageOptions" where
  "sendMessageOptions content llmModel =
     (let wantsProjectPlan = isProjectPlanRequest content
      in \<lparr>systemPrompt = (if wantsProjectPlan then Some buildProjectPlanSystemPrompt else None),
          model = llmModel\<rparr>)"

text \<open>
  The detector in the words of the specification: the text contains the literal phrase
  \<open>project plan\<close> as a substring, letter case ignored.
\<close>

definition spec_contains_phrase :: "string \<Rightarrow> bool" where
  "spec_contains_phrase text =
     sublist (map canonicalize ''project plan'') (map canonicalize text)"

section \<open>A JSON decoder for concrete runs\<close>

text \<open>
  The theorems below hold for every function given as \<open>JSON_parse\<close>. To run the parser
  on concrete messages, \<open>json_decode\<close> decodes a text by the JSON grammar: white space,
  the literals, numbers, strings with their escapes, arrays and objects; a repeated
  property name keeps its first position and takes the last value. Nesting is bounded
  by the length of the text. An escape \<open>\uXXXX\<close> from 256 on is outside the code units
  modelled and is refused.
\<close>

datatype js_error = SyntaxError

definition json_ws :: "char \<Rightarrow> bool" where
  "json_ws c = (c \<in> {CHR 0x20, CHR 0x09, CHR 0x0A, CHR 0x0D})"

definition is_digit :: "char \<Rightarrow> bool" where
  "is_digit c = (let n = (of_char c :: nat) in 48 \<le> n \<and> n \<le> 57)"

definition digits_val :: "string \<Rightarrow> nat" where
  "digits_val ds = foldl (\<lambda>a c. 10 * a + (of_char c - 48)) 0 ds"

definition hex_val :: "char \<Rightarrow> nat option" where
  "hex_val c =
     (let n = (of_char c :: nat)
      in if 48 \<le> n \<and> n \<le> 57 then Some (n - 48)
         else if 65 \<le> n \<and> n \<le> 70 then Some (n - 55)
         else if 97 \<le> n \<and> n \<le> 102 then Some (n - 87)
         else None)"

definition escape_char :: "char \<Rightarrow> char option" where
  "escape_char c =
     (if c = CHR 0x22 \<or> c = CHR 0x5C \<or> c = CHR ''/'' then Some c
      else if c = CHR ''b'' then Some (CHR 0x08)
      else if c = CHR ''f'' then Some (CHR 0x0C)
      else if c = CHR ''n'' then Some (CHR 0x0A)
      else if c = CHR ''r'' then Some (CHR 0x0D)
      else if c = CHR ''t'' then Some (CHR 0x09)
      else None)"

fun hex4 :: "string \<Rightarrow> nat option" where
  "hex4 [h1, h2, h3, h4] =
     (case hex_val h1 of None \<Rightarrow> None | Some a \<Rightarrow>
      case hex_val h2 of None \<Rightarrow> None | Some b \<Rightarrow>
      case hex_val h3 of None \<Rightarrow> None | Some c \<Rightarrow>
      case hex_val h4 of None \<Rightarrow> None | Some d \<Rightarrow> Some (((a * 16 + b) * 16 + c) * 16 + d))"
| "hex4 _ = None"

fun decode_string :: "string \<Rightarrow> string \<Rightarrow> (string \<times> string) option" where
  "decode_string [] acc = None"
| "decode_string [c] acc = (if c = CHR 0x22 then Some (rev acc, []) else None)"
| "decode_string (c # e # r) acc =
     (if c = CHR 0x22 then Some (rev acc, e # r)
      else if c = CHR 0x5C then
        (if e = CHR ''u'' then
           (case hex4 (take 4 r) of
              Some n \<Rightarrow> if n < 256 then decode_string (drop 4 r) (char_of n # acc) else None
            | None \<Rightarrow> None)
         else
           (case escape_char e of
              Some x \<Rightarrow> decode_string r (x # acc)
            | None \<Rightarrow> None))
      else if (of_char c :: nat) < 32 then None
      else decode_string (e # r) (c # acc))"

definition decode_number :: "string \<Rightarrow> (rat \<times> string) option" where
  "decode_number s =
     (let neg = (s \<noteq> [] \<and> hd s = CHR ''-'');
          s1 = (if neg then tl s else s);
          ip = takeWhile is_digit s1;
          s2 = dropWhile is_digit s1
      in if ip = [] \<or> (length ip > 1 \<and> hd ip = CHR ''0'') then None
         else
           (let has_frac = (s2 \<noteq> [] \<and> hd s2 = CHR ''.'');
                fp = (if has_frac then takeWhile is_digit (tl s2) else []);
                s3 = (if has_frac then dropWhile is_digit (tl s2) else s2)
            in if has_frac \<and> fp = [] then None
               else
                 (let has_exp = (s3 \<noteq> [] \<and> (hd s3 = CHR ''e'' \<or> hd s3 = CHR ''E''));
                      s4 = (if has_exp then tl s3 else s3);
                      eneg = (has_exp \<and> s4 \<noteq> [] \<and> hd s4 = CHR ''-'');
                      s5 = (if has_exp \<and> s4 \<noteq> [] \<and> (hd s4 = CHR ''-'' \<or> hd s4 = CHR ''+'')
                            then tl s4 else s4);
                      ep = (if has_exp then takeWhile is_digit s5 else []);
                      s6 = (if has_exp then dropWhile is_digit s5 else s3)
                  in if has_exp \<and> ep = [] then None
                     else
                       (let m = of_nat (digits_val ip) + of_nat (digits_val fp) / 10 ^ length fp;
                            x = (if eneg then m / 10 ^ digits_val ep else m * 10 ^ digits_val ep)
                        in Some (if neg then - x else x, s6)))))"

fun put_property :: "string \<Rightarrow> json \<Rightarrow> (string \<times> json) list \<Rightarrow> (string \<times> json) list" where
  "put_property k v [] = [(k, v)]"
| "put_property k v ((k', v') # fs) =
     (if k = k' then (k, v) # fs else (k', v') # put_property k v fs)"

fun decode_value :: "nat \<Rightarrow> string \<Rightarrow> (json \<times> string) option"
  and decode_elements :: "nat \<Rightarrow> string \<Rightarrow> json list \<Rightarrow> (json \<times> string) option"
  and decode_members :: "nat \<Rightarrow> string \<Rightarrow> (string \<times> json) list \<Rightarrow> (json \<times> string) option"
where
  "decode_value 0 s = None"
| "decode_value (Suc n) s =
     (let t = dropWhile json_ws s
      in if prefix ''null'' t then Some (JNull, drop 4 t)
         else if prefix ''true'' t then Some (JBool True, drop 4 t)
         else if prefix ''false'' t then Some (JBool False, drop 5 t)
         else if prefix [CHR 0x22] t then
           (case decode_string (tl t) [] of
              Some (x, r) \<Rightarrow> Some (JStr x, r)
            | None \<Rightarrow> None)
         else if prefix ''['' t then
           (if prefix '']'' (dropWhile json_ws (tl t))
            then Some (JArr [], tl (dropWhile json_ws (tl t)))
            else decode_elements n (tl t) [])
         else if prefix ''{'' t then
           (if prefix ''}'' (dropWhile json_ws (tl t))
            then Some (JObj [], tl (dropWhile json_ws (tl t)))
            else decode_members n (tl t) [])
         else
           (case decode_number t of
              Some (x, r) \<Rightarrow> Some (JNum x, r)
            | None \<Rightarrow> None))"
| "decode_elements 0 s acc = None"
| "decode_elements (Suc n) s acc =
     (case decode_value n s of
        None \<Rightarrow> None
      | Some (v, r) \<Rightarrow>
          (let t = dropWhile json_ws r
           in if prefix '','' t then decode_elements n (tl t) (acc @ [v])
              else if prefix '']'' t then Some (JArr (acc @ [v]), tl t)
              else None))"
| "decode_members 0 s acc = None"
| "decode_members (Suc n) s acc =
     (let t = dropWhile json_ws s
      in if prefix [CHR 0x22] t then
           (case decode_string (tl t) [] of
              None \<Rightarrow> None
            | Some (k, r) \<Rightarrow>
                (let t1 = dropWhile json_ws r
                 in if prefix '':'' t1 then
                      (case decode_value n (tl t1) of
                         None \<Rightarrow> None
                       | Some (v, r1) \<Rightarrow>
                           (let t2 = dropWhile json_ws r1
                            in if prefix '','' t2 then decode_members n (tl t2) (put_property k v acc)
                               else if prefix ''}'' t2 then Some (JObj (put_property k v acc), tl t2)
                               else None))
                    else None))
         else None)"

definition json_decode :: "string \<Rightarrow> js_error + json" where
  "json_decode s =
     (case decode_value (Suc (length s)) s of
        Some (v, r) \<Rightarrow> if dropWhile json_ws r = [] then Inr v else Inl SyntaxError
      | None \<Rightarrow> Inl SyntaxError)"

section \<open>Example messages\<close>

definition msg_bad_json :: string where
  \<open>msg_bad_json = ''X<project_plan>{not json</project_plan>Y''\<close>

definition msg_bad_shape :: string where
  \<open>msg_bad_shape = ''X<project_plan>{"workstreams": [{"title": "t"}]}</project_plan>Y''\<close>

definition json_bad_shape :: json where
  "json_bad_shape = JObj [(''workstreams'', JArr [JObj [(''title'', JStr ''t'')]])]"

definition msg_reversed :: string where
  "msg_reversed = ''</project_plan>Only text here<project_plan>''"

definition plan_example :: ProjectPlan where
  "plan_example =
     ProjectPlan [Workstream ''Build'' ''Do it'' [Deliverable ''API'' ''REST''],
                  Workstream ''Ship'' ''Deploy'' []]"

definition plan_example_text :: string where
  \<open>plan_example_text = '' {"workstreams":[{"title":"Build","description":"Do it","deliverables":[{"title":"API","description":"REST"}]},{"title":"Ship","description":"Deploy","deliverables":[]}]} ''\<close>

definition json_with_extras :: json where
  "json_with_extras =
     JObj [(''version'', JNum 2),
           (''workstreams'', JArr
              [JObj [(''title'', JStr ''Build''), (''owner'', JStr ''ann''),
                     (''description'', JStr ''Do it''),
                     (''deliverables'', JArr
                        [JObj [(''title'', JStr ''API''), (''description'', JStr ''REST''),
                               (''done'', JBool False)]])]])]"

definition msg_with_extras :: string where
  \<open>msg_with_extras = ''A<project_plan>{"version":2,"workstreams":[{"title":"Build","owner":"ann","description":"Do it","deliverables":[{"title":"API","description":"REST","done":false}]}]}</project_plan>B''\<close>

definition json_blank_title :: json where
  "json_blank_title =
     JObj [(''workstreams'', JArr
              [JObj [(''title'', JStr ''   ''), (''description'', JStr ''d''),
                     (''deliverables'', JArr [])]])]"


section \<open>Properties of the string operations and of the validator\<close>

subsection \<open>Positions of occurrences\<close>

lemma indexOf_ge: "indexOf s p \<ge> -1"
  by (induction s) (auto simp: Let_def)

lemma indexOf_le_length: "indexOf s p \<le> int (length s)"
  by (induction s) (auto simp: Let_def)

lemma indexOf_prefix: "prefix p s \<Longrightarrow> indexOf s p = 0"
  by (cases s) auto

lemma indexOf_neg_iff: "indexOf s p = -1 \<longleftrightarrow> \<not> sublist p s"
proof (induction s)
  case Nil
  then show ?case by auto
next
  case (Cons c s)
  then show ?case using indexOf_ge[of s p] by (auto simp: Let_def sublist_Cons_right)
qed

lemma indexOf_occurs:
  "indexOf s p \<noteq> -1 \<Longrightarrow> prefix p (drop (nat (indexOf s p)) s)"
proof (induction s)
  case Nil
  then show ?case by (auto split: if_splits)
next
  case (Cons c s)
  show ?case
  proof (cases "prefix p (c # s)")
    case True
    then show ?thesis by simp
  next
    case False
    with Cons.prems have ne: "indexOf s p \<noteq> -1" by (auto simp: Let_def split: if_splits)
    with indexOf_ge[of s p] have "nat (indexOf s p + 1) = Suc (nat (indexOf s p))" by simp
    with False ne Cons.IH show ?thesis by (simp add: Let_def)
  qed
qed

lemma indexOf_earliest:
  "indexOf s p \<noteq> -1 \<Longrightarrow> m < nat (indexOf s p) \<Longrightarrow> \<not> prefix p (drop m s)"
proof (induction s arbitrary: m)
  case Nil
  then show ?case by (auto split: if_splits)
next
  case (Cons c s)
  show ?case
  proof (cases "prefix p (c # s)")
    case True
    with Cons.prems show ?thesis by simp
  next
    case False
    with Cons.prems have ne: "indexOf s p \<noteq> -1" by (auto simp: Let_def split: if_splits)
    with indexOf_ge[of s p] have n: "nat (indexOf s p + 1) = Suc (nat (indexOf s p))" by simp
    show ?thesis
    proof (cases m)
      case 0
      with False show ?thesis by simp
    next
      case (Suc k)
      with Cons.prems False ne n have "k < nat (indexOf s p)" by (simp add: Let_def)
      with Cons.IH[OF ne] Suc show ?thesis by simp
    qed
  qed
qed

subsection \<open>Slices of a concatenation\<close>

lemma slice_take:
  "0 \<le> i \<Longrightarrow> slice s 0 i = take (nat i) s"
  by (auto simp: slice_def slice_index_def Let_def min_def)

lemma slice_from_drop:
  "0 \<le> i \<Longrightarrow> slice_from s i = drop (nat i) s"
  by (auto simp: slice_from_def slice_index_def Let_def min_def)

lemma slice_prefix: "slice (a @ b) 0 (int (length a)) = a"
  by (simp add: slice_def slice_index_def Let_def)

lemma slice_mid: "slice (a @ b @ c) (int (length a)) (int (length a) + int (length b)) = b"
  by (simp add: slice_def slice_index_def Let_def min_def)

lemma slice_from_suffix: "slice_from (a @ b) (int (length a)) = b"
  by (simp add: slice_from_def slice_index_def Let_def)

subsection \<open>The split\<close>

lemma split_none_iff:
  "splitByProjectPlanTag content = None \<longleftrightarrow>
     indexOf content OPEN = -1 \<or> indexOf content CLOSE = -1 \<or>
     indexOf content CLOSE \<le> indexOf content OPEN"
  by (simp add: splitByProjectPlanTag_def Let_def)

lemma split_some:
  assumes "indexOf content OPEN \<noteq> -1" and "indexOf content OPEN < indexOf content CLOSE"
  shows "splitByProjectPlanTag content =
    Some \<lparr>tag_beforeText = take (nat (indexOf content OPEN)) content,
          jsonText = trim (slice content (indexOf content OPEN + int (length OPEN))
                             (indexOf content CLOSE)),
          tag_afterText = drop (nat (indexOf content CLOSE) + length CLOSE) content\<rparr>"
proof -
  from assms(1) indexOf_ge[of content OPEN] have s: "0 \<le> indexOf content OPEN" by simp
  with assms(2) have e: "0 \<le> indexOf content CLOSE" "indexOf content CLOSE \<noteq> -1" by simp_all
  have "nat (indexOf content CLOSE + int (length CLOSE)) = nat (indexOf content CLOSE) + length CLOSE"
    using e by (simp add: nat_add_distrib)
  then show ?thesis
    using assms s e
    by (simp add: splitByProjectPlanTag_def Let_def slice_take slice_from_drop)
qed

subsection \<open>The validator\<close>

lemma isProjectPlan_truthy: "isProjectPlan p \<Longrightarrow> truthy p"
  by (auto simp: isProjectPlan_def split: if_splits)

lemma isNonEmptyString_iff:
  "isNonEmptyString x \<longleftrightarrow> (\<exists>s. x = Some (JStr s) \<and> trim s \<noteq> [])"
  by (cases x rule: isNonEmptyString.cases) auto

lemma isDeliverable_iff:
  "isDeliverable x \<longleftrightarrow>
     (\<exists>hs t d. x = JObj hs \<and>
        map_of hs ''title'' = Some (JStr t) \<and> trim t \<noteq> [] \<and>
        map_of hs ''description'' = Some (JStr d) \<and> trim d \<noteq> [])"
  by (cases x) (auto simp: isDeliverable_def isNonEmptyString_iff)

lemma isWorkstream_iff:
  "isWorkstream w \<longleftrightarrow>
     (\<exists>gs t d ds. w = JObj gs \<and>
        map_of gs ''title'' = Some (JStr t) \<and> trim t \<noteq> [] \<and>
        map_of gs ''description'' = Some (JStr d) \<and> trim d \<noteq> [] \<and>
        map_of gs ''deliverables'' = Some (JArr ds) \<and>
        (\<forall>x \<in> set ds. isDeliverable x))"
  by (cases w)
     (auto simp: isWorkstream_def isNonEmptyString_iff list_all_iff Let_def
           split: option.splits json.splits)

lemma isProjectPlan_iff:
  "isProjectPlan v \<longleftrightarrow>
     (\<exists>fs ws. v = JObj fs \<and> map_of fs ''workstreams'' = Some (JArr ws) \<and>
        (\<forall>w \<in> set ws. isWorkstream w))"
  by (cases v)
     (auto simp: isProjectPlan_def list_all_iff Let_def split: option.splits json.splits)

lemma deliverable_ok_valid: "deliverable_ok d \<Longrightarrow> isDeliverable (json_of_deliverable d)"
  by (cases d) (simp add: isDeliverable_iff)

lemma workstream_ok_valid: "workstream_ok w \<Longrightarrow> isWorkstream (json_of_workstream w)"
  by (cases w) (auto simp: isWorkstream_iff list_all_iff deliverable_ok_valid)

lemma plan_ok_valid: "plan_ok p \<Longrightarrow> isProjectPlan (json_of_plan p)"
  by (cases p) (auto simp: isProjectPlan_iff list_all_iff workstream_ok_valid)

subsection \<open>The first occurrence of a sentinel\<close>

lemma prefix_into_butlast:
  assumes "prefix p (c # a @ p @ r)" shows "prefix p ((c # a) @ butlast p)"
proof -
  have "length p \<le> length ((c # a) @ butlast p)" by simp
  moreover have "prefix ((c # a) @ butlast p) (c # a @ p @ r)"
    by (metis append_Cons append_butlast_last_id append_assoc prefix_def butlast.simps(1) append_Nil2 same_prefix_prefix append_prefixD prefixI)
  ultimately show ?thesis using assms
    by (metis prefix_length_prefix)
qed

lemma indexOf_first:
  "\<not> sublist p (a @ butlast p) \<Longrightarrow> indexOf (a @ p @ r) p = int (length a)"
proof (induction a)
  case Nil
  then show ?case by (simp add: indexOf_prefix)
next
  case (Cons c a)
  have np: "\<not> prefix p (c # a @ p @ r)"
  proof
    assume "prefix p (c # a @ p @ r)"
    then have "prefix p ((c # a) @ butlast p)" by (rule prefix_into_butlast)
    then have "sublist p ((c # a) @ butlast p)" by (rule prefix_imp_sublist)
    with Cons.prems show False by simp
  qed
  from Cons.prems have "\<not> sublist p (a @ butlast p)"
    by (auto simp: sublist_Cons_right)
  from Cons.IH[OF this] np show ?case by (auto simp: Let_def)
qed

lemma prefix_stops_before:
  "c \<notin> set q \<Longrightarrow> prefix q (u @ c # v) \<Longrightarrow> prefix q u"
proof (induction u arbitrary: q)
  case Nil
  then show ?case by (cases q) auto
next
  case (Cons y u)
  then show ?case by (cases q) auto
qed

lemma no_straddle:
  "c \<notin> set q \<Longrightarrow> sublist (c # q) (u @ c # v) \<Longrightarrow>
     sublist (c # q) u \<or> prefix (c # q) (c # v) \<or> sublist (c # q) v"
proof (induction u)
  case Nil
  then show ?case by (simp add: sublist_Cons_right)
next
  case (Cons x u)
  from Cons.prems(2) have "prefix (c # q) (x # u @ c # v) \<or> sublist (c # q) (u @ c # v)"
    by (simp add: sublist_Cons_right)
  then show ?case
  proof
    assume "prefix (c # q) (x # u @ c # v)"
    then have "x = c" and "prefix q (u @ c # v)" by auto
    with Cons.prems(1) have "prefix q u" by (blast intro: prefix_stops_before)
    with \<open>x = c\<close> have "prefix (c # q) (x # u)" by simp
    then show ?thesis by (auto simp: sublist_Cons_right)
  next
    assume "sublist (c # q) (u @ c # v)"
    with Cons.IH Cons.prems(1) show ?thesis by (auto simp: sublist_Cons_right)
  qed
qed

lemma sublist_skip:
  "c \<notin> set w \<Longrightarrow> sublist (c # q) (w @ v) \<Longrightarrow> sublist (c # q) v"
  by (induction w) (auto simp: sublist_Cons_right)

lemma OPEN_first:
  assumes "\<not> sublist OPEN before"
  shows "indexOf (before @ OPEN @ r) OPEN = int (length before)"
proof (rule indexOf_first)
  show "\<not> sublist OPEN (before @ butlast OPEN)"
  proof
    assume "sublist OPEN (before @ butlast OPEN)"
    then have "sublist (CHR ''<'' # ''project_plan>'') (before @ CHR ''<'' # ''project_plan'')"
      by (simp add: OPEN_def)
    then have "sublist OPEN before \<or> prefix OPEN ''<project_plan'' \<or> sublist OPEN ''project_plan''"
      using no_straddle[of "CHR ''<''" "''project_plan>''" before "''project_plan''"]
      by (simp add: OPEN_def)
    with assms show False
      by (auto simp: OPEN_def dest: prefix_length_le sublist_length_le)
  qed
qed

lemma CLOSE_first:
  assumes "\<not> sublist CLOSE before" and "\<not> sublist CLOSE payload"
  shows "indexOf (before @ OPEN @ payload @ CLOSE @ r) CLOSE
           = int (length before) + int (length OPEN) + int (length payload)"
proof -
  have "\<not> sublist CLOSE ((before @ OPEN @ payload) @ butlast CLOSE)"
  proof
    assume "sublist CLOSE ((before @ OPEN @ payload) @ butlast CLOSE)"
    then have "sublist (CHR ''<'' # ''/project_plan>'')
                 (before @ CHR ''<'' # (''project_plan>'' @ payload @ ''</project_plan''))"
      by (simp add: OPEN_def CLOSE_def)
    then have "sublist CLOSE before
        \<or> prefix CLOSE (CHR ''<'' # (''project_plan>'' @ payload @ ''</project_plan''))
        \<or> sublist CLOSE (''project_plan>'' @ payload @ ''</project_plan'')"
      using no_straddle[of "CHR ''<''" "''/project_plan>''" before
          "''project_plan>'' @ payload @ ''</project_plan''"]
      by (simp add: CLOSE_def)
    with assms(1) have "sublist CLOSE (''project_plan>'' @ payload @ ''</project_plan'')"
      by (auto simp: CLOSE_def)
    then have "sublist (CHR ''<'' # ''/project_plan>'') (payload @ ''</project_plan'')"
      using sublist_skip[of "CHR ''<''" "''project_plan>''" "''/project_plan>''"
          "payload @ ''</project_plan''"]
      by (simp add: CLOSE_def)
    then have "sublist (CHR ''<'' # ''/project_plan>'') (payload @ CHR ''<'' # ''/project_plan'')"
      by simp
    then have "sublist CLOSE payload \<or> prefix CLOSE ''</project_plan'' \<or> sublist CLOSE ''/project_plan''"
      using no_straddle[of "CHR ''<''" "''/project_plan>''" payload "''/project_plan''"]
      by (simp add: CLOSE_def)
    with assms(2) show False
      by (auto simp: CLOSE_def dest: prefix_length_le sublist_length_le)
  qed
  from indexOf_first[OF this, of r] show ?thesis by simp
qed

lemma split_tagged:
  assumes "\<not> sublist OPEN before" "\<not> sublist CLOSE before" "\<not> sublist CLOSE payload"
  shows "splitByProjectPlanTag (before @ OPEN @ payload @ CLOSE @ after)
           = Some \<lparr>tag_beforeText = before, jsonText = trim payload, tag_afterText = after\<rparr>"
proof -
  let ?c = "before @ OPEN @ payload @ CLOSE @ after"
  have s: "indexOf ?c OPEN = int (length before)" using assms(1) by (rule OPEN_first)
  have e: "indexOf ?c CLOSE = int (length before) + int (length OPEN) + int (length payload)"
    using assms(2,3) by (rule CLOSE_first)
  have l: "length OPEN = 14" "length CLOSE = 15" by (simp_all add: OPEN_def CLOSE_def)
  have 1: "slice ?c 0 (int (length before)) = before" by (rule slice_prefix)
  have 2: "slice ?c (int (length before) + int (length OPEN))
             (int (length before) + int (length OPEN) + int (length payload)) = payload"
    using slice_mid[of "before @ OPEN" payload "CLOSE @ after"] by simp
  have 3: "slice_from ?c (int (length before) + int (length OPEN) + int (length payload) + int (length CLOSE)) = after"
    using slice_from_suffix[of "before @ OPEN @ payload @ CLOSE" after] by (simp add: add.assoc)
  show ?thesis
    unfolding splitByProjectPlanTag_def Let_def s e using 1 2 3 l by simp
qed

lemma parse_tagged_valid:
  assumes "\<not> sublist OPEN before" "\<not> sublist CLOSE before" "\<not> sublist CLOSE payload"
    and "JSON_parse (trim payload) = Inr v" and "isProjectPlan v"
  shows "parseProjectPlanMessage JSON_parse (before @ OPEN @ payload @ CLOSE @ after) sideChannelPlan =
           Inr \<lparr>beforeText = before, afterText = after, projectPlan = Some v\<rparr>"
  using assms(4,5)
  by (simp add: parseProjectPlanMessage_def split_tagged[OF assms(1,2,3)] try_catch_def)

lemma parse_returns_valid:
  "\<exists>parsed. parseProjectPlanMessage JSON_parse content sideChannelPlan = Inr parsed \<and>
     (\<forall>p. projectPlan parsed = Some p \<longrightarrow> isProjectPlan p)"
proof (cases "splitByProjectPlanTag content")
  case None
  then show ?thesis
    by (cases sideChannelPlan) (simp_all add: parseProjectPlanMessage_def)
next
  case (Some tagged)
  then show ?thesis
    by (cases "JSON_parse (jsonText tagged)")
       (simp_all add: parseProjectPlanMessage_def try_catch_def)
qed

lemma MessageBody_of_parsed:
  assumes "parseProjectPlanMessage JSON_parse content sideChannelPlan = Inr parsed"
    and "\<forall>p. projectPlan parsed = Some p \<longrightarrow> isProjectPlan p"
  shows "MessageBody JSON_parse (Message r content sideChannelPlan) =
       Inr ((if trim (beforeText parsed) \<noteq> [] then [TextDiv (trim (beforeText parsed))] else []) @
            (case projectPlan parsed of Some p \<Rightarrow> [ProjectPlanPreview p] | None \<Rightarrow> []) @
            (if trim (afterText parsed) \<noteq> [] then [TextDiv (trim (afterText parsed))] else []))"
proof (cases "projectPlan parsed")
  case None
  with assms(1) show ?thesis by (simp add: MessageBody_def)
next
  case (Some p)
  with assms(2) have "truthy p" by (simp add: isProjectPlan_truthy)
  with Some assms(1) show ?thesis by (simp add: MessageBody_def)
qed

lemma trim_Nil: "trim [] = []"
  by (simp add: trim_def)

subsection \<open>What the regular expression matches\<close>

lemma match_here_literal:
  "match_here True (map (\<lambda>c. One (Chr c)) lit @ r) s \<longleftrightarrow>
     (\<exists>a rest. s = a @ rest \<and> map canonicalize a = map canonicalize lit \<and>
        match_here True r rest)"
proof (induction lit arbitrary: s)
  case Nil
  then show ?case by simp
next
  case (Cons l lit)
  show ?case
  proof (cases s)
    case Nil
    then show ?thesis by simp
  next
    case (Cons c cs)
    show ?thesis
    proof
      assume "match_here True (map (\<lambda>c. One (Chr c)) (l # lit) @ r) s"
      with Cons have c: "canonicalize l = canonicalize c"
        and m: "match_here True (map (\<lambda>c. One (Chr c)) lit @ r) cs" by simp_all
      from m Cons.IH obtain a rest where "cs = a @ rest"
        "map canonicalize a = map canonicalize lit" "match_here True r rest" by blast
      with c Cons have "s = (c # a) @ rest \<and>
        map canonicalize (c # a) = map canonicalize (l # lit) \<and> match_here True r rest" by simp
      then show "\<exists>a rest. s = a @ rest \<and> map canonicalize a = map canonicalize (l # lit) \<and>
        match_here True r rest" by blast
    next
      assume "\<exists>a rest. s = a @ rest \<and> map canonicalize a = map canonicalize (l # lit) \<and>
        match_here True r rest"
      then obtain a rest where s: "s = a @ rest"
        and a: "map canonicalize a = map canonicalize (l # lit)"
        and m: "match_here True r rest" by blast
      from a obtain x a' where a': "a = x # a'" "canonicalize x = canonicalize l"
        "map canonicalize a' = map canonicalize lit" by (cases a) auto
      with s Cons have "c = x" "cs = a' @ rest" by simp_all
      with a' m Cons.IH[of cs] have "match_here True (map (\<lambda>c. One (Chr c)) lit @ r) cs" by blast
      with Cons \<open>c = x\<close> a' show "match_here True (map (\<lambda>c. One (Chr c)) (l # lit) @ r) s" by simp
    qed
  qed
qed

lemma match_here_plus_ws:
  "match_here i (Plus WhiteSpace # r) s \<longleftrightarrow>
     (\<exists>w rest. s = w @ rest \<and> w \<noteq> [] \<and> list_all is_ws w \<and> match_here i r rest)"
proof (induction s)
  case Nil
  then show ?case by simp
next
  case (Cons c cs)
  show ?case
  proof
    assume "match_here i (Plus WhiteSpace # r) (c # cs)"
    then have c: "is_ws c" and d: "match_here i (Plus WhiteSpace # r) cs \<or> match_here i r cs"
      by simp_all
    from d show "\<exists>w rest. c # cs = w @ rest \<and> w \<noteq> [] \<and> list_all is_ws w \<and> match_here i r rest"
    proof
      assume "match_here i (Plus WhiteSpace # r) cs"
      with Cons.IH obtain w rest where "cs = w @ rest" "list_all is_ws w" "match_here i r rest"
        by blast
      with c have "c # cs = (c # w) @ rest \<and> c # w \<noteq> [] \<and> list_all is_ws (c # w) \<and>
        match_here i r rest" by simp
      then show ?thesis by blast
    next
      assume "match_here i r cs"
      with c have "c # cs = [c] @ cs \<and> [c] \<noteq> [] \<and> list_all is_ws [c] \<and> match_here i r cs"
        by simp
      then show ?thesis by blast
    qed
  next
    assume "\<exists>w rest. c # cs = w @ rest \<and> w \<noteq> [] \<and> list_all is_ws w \<and> match_here i r rest"
    then obtain w rest where s: "c # cs = w @ rest" and ne: "w \<noteq> []"
      and ws: "list_all is_ws w" and m: "match_here i r rest" by blast
    from ne obtain x w' where w: "w = x # w'" by (cases w) auto
    with s ws have c: "c = x" "is_ws c" "cs = w' @ rest" "list_all is_ws w'" by simp_all
    show "match_here i (Plus WhiteSpace # r) (c # cs)"
    proof (cases "w' = []")
      case True
      with c m show ?thesis by simp
    next
      case False
      with c m Cons.IH have "match_here i (Plus WhiteSpace # r) cs" by blast
      with c show ?thesis by simp
    qed
  qed
qed

lemma rx_test_iff:
  "rx_test i r s \<longleftrightarrow> (\<exists>pre rest. s = pre @ rest \<and> match_here i r rest)"
proof (induction s)
  case Nil
  then show ?case by simp
next
  case (Cons c cs)
  show ?case
  proof
    assume "rx_test i r (c # cs)"
    then have "match_here i r (c # cs) \<or> rx_test i r cs" by simp
    then show "\<exists>pre rest. c # cs = pre @ rest \<and> match_here i r rest"
    proof
      assume "match_here i r (c # cs)"
      then have "c # cs = [] @ (c # cs) \<and> match_here i r (c # cs)" by simp
      then show ?thesis by blast
    next
      assume "rx_test i r cs"
      with Cons.IH obtain pre rest where "cs = pre @ rest" "match_here i r rest" by blast
      then have "c # cs = (c # pre) @ rest \<and> match_here i r rest" by simp
      then show ?thesis by blast
    qed
  next
    assume "\<exists>pre rest. c # cs = pre @ rest \<and> match_here i r rest"
    then obtain pre rest where s: "c # cs = pre @ rest" and m: "match_here i r rest" by blast
    show "rx_test i r (c # cs)"
    proof (cases pre)
      case Nil
      with s have "rest = c # cs" by simp
      with m show ?thesis by simp
    next
      case (Cons x pre')
      with s have "cs = pre' @ rest" by simp
      with m Cons.IH show ?thesis by auto
    qed
  qed
qed

lemma isProjectPlanRequest_iff:
  "isProjectPlanRequest text \<longleftrightarrow>
     (\<exists>pre a w b post. text = pre @ a @ w @ b @ post \<and>
        map canonicalize a = map canonicalize ''project'' \<and>
        w \<noteq> [] \<and> list_all is_ws w \<and>
        map canonicalize b = map canonicalize ''plan'')"
proof -
  have m: "match_here True project_plan_rx s \<longleftrightarrow>
     (\<exists>a w b post. s = a @ w @ b @ post \<and>
        map canonicalize a = map canonicalize ''project'' \<and>
        w \<noteq> [] \<and> list_all is_ws w \<and>
        map canonicalize b = map canonicalize ''plan'')" for s
  proof -
    have e: "match_here True (map (\<lambda>c. One (Chr c)) ''plan'') t \<longleftrightarrow>
        (\<exists>b post. t = b @ post \<and> map canonicalize b = map canonicalize ''plan'')" for t
      using match_here_literal[of "''plan''" "[]" t] by simp
    show ?thesis
      unfolding project_plan_rx_def match_here_literal append_Cons append_Nil
        match_here_plus_ws e
      by blast
  qed
  show ?thesis
    unfolding isProjectPlanRequest_def rx_test_iff m by blast
qed

section \<open>The claims of the specification\<close>

text \<open>
  C1. A payload that decodes but fails the validator, inside a well-formed sentinel
  pair, is to give no plan, the whole content as \<open>beforeText\<close> and the empty string as
  \<open>afterText\<close>, as the \<open>catch\<close> branch gives for a payload that does not decode. The
  code does not do so: on the message \<open>msg_bad_shape\<close> it returns the text before the
  opening sentinel and the text after the closing sentinel, so the block is lost, and a
  message that is only such a block renders as nothing at all.
\<close>

theorem C1_invalid_shape_not_fail_closed:
  \<open>indexOf msg_bad_shape OPEN \<noteq> -1 \<and>
   indexOf msg_bad_shape OPEN < indexOf msg_bad_shape CLOSE \<and>
   json_decode (trim (slice msg_bad_shape (indexOf msg_bad_shape OPEN + int (length OPEN))
                        (indexOf msg_bad_shape CLOSE))) = Inr json_bad_shape \<and>
   \<not> isProjectPlan json_bad_shape \<and>
   parseProjectPlanMessage json_decode msg_bad_shape None =
     Inr \<lparr>beforeText = ''X'', afterText = ''Y'', projectPlan = None\<rparr> \<and>
   parseProjectPlanMessage json_decode msg_bad_shape None \<noteq>
     Inr \<lparr>beforeText = msg_bad_shape, afterText = [], projectPlan = None\<rparr> \<and>
   MessageBody json_decode
       (Message Assistant (OPEN @ ''{"workstreams": [{"title": "t"}]}'' @ CLOSE) None) = Inr []\<close>
  by code_simp

text \<open>
  C2. When the first closing sentinel comes after the first opening sentinel and decoding
  the trimmed payload raises, the parser returns no plan, the whole content as
  \<open>beforeText\<close> and the empty string as \<open>afterText\<close>.
\<close>

theorem C2_malformed_json_fail_closed:
  assumes "indexOf content OPEN \<noteq> -1"
    and "indexOf content OPEN < indexOf content CLOSE"
    and "JSON_parse (trim (slice content (indexOf content OPEN + int (length OPEN))
                             (indexOf content CLOSE))) = Inl e"
  shows "parseProjectPlanMessage JSON_parse content sideChannelPlan =
           Inr \<lparr>beforeText = content, afterText = [], projectPlan = None\<rparr>"
  using assms(3)
  by (simp add: parseProjectPlanMessage_def split_some[OF assms(1,2)] try_catch_def)

text \<open>
  C3. When a sentinel is absent, or the first closing sentinel is not after the first
  opening sentinel, the parser returns the whole content as \<open>beforeText\<close>, the empty
  string as \<open>afterText\<close>, and as plan the side-channel value if one was supplied and
  passes the validator, no plan otherwise.
\<close>

theorem C3_no_block_side_channel:
  assumes "\<not> sublist OPEN content \<or> \<not> sublist CLOSE content \<or>
           indexOf content CLOSE \<le> indexOf content OPEN"
  shows "parseProjectPlanMessage JSON_parse content sideChannelPlan =
           Inr \<lparr>beforeText = content, afterText = [],
                projectPlan = (case sideChannelPlan of
                                 Some p \<Rightarrow> if isProjectPlan p then Some p else None
                               | None \<Rightarrow> None)\<rparr>"
proof -
  from assms have "splitByProjectPlanTag content = None"
    by (simp add: split_none_iff indexOf_neg_iff)
  then show ?thesis
    by (auto simp: parseProjectPlanMessage_def dest: isProjectPlan_truthy split: option.splits)
qed

text \<open>
  C4, as the code has it. For a plan that satisfies the schema and a text \<open>validJson\<close>
  that decodes to it, the message \<open>before + OPEN + validJson + CLOSE + after\<close> is split
  into \<open>before\<close>, the plan and \<open>after\<close>, provided that \<open>before\<close> contains neither
  sentinel and \<open>validJson\<close> does not contain the closing sentinel.
\<close>

theorem C4_round_trip:
  assumes "plan_ok plan"
    and "JSON_parse (trim validJson) = Inr (json_of_plan plan)"
    and "\<not> sublist OPEN before" and "\<not> sublist CLOSE before"
    and "\<not> sublist CLOSE validJson"
  shows "parseProjectPlanMessage JSON_parse (before @ OPEN @ validJson @ CLOSE @ after) sideChannelPlan =
           Inr \<lparr>beforeText = before, afterText = after,
                projectPlan = Some (json_of_plan plan)\<rparr>"
  using assms(3,4,5,2) plan_ok_valid[OF assms(1)] by (rule parse_tagged_valid)

text \<open>
  C5. The validator accepts a value exactly when it is an object whose \<open>workstreams\<close>
  is an array of objects, each with a \<open>title\<close> and a \<open>description\<close> that are strings
  non-empty after trimming and with \<open>deliverables\<close> an array of objects, each with a
  \<open>title\<close> and a \<open>description\<close> that are strings non-empty after trimming.
\<close>

theorem C5_validator_all_or_nothing:
  "isProjectPlan v \<longleftrightarrow>
     (\<exists>fs ws. v = JObj fs \<and> map_of fs ''workstreams'' = Some (JArr ws) \<and>
        (\<forall>w \<in> set ws. \<exists>gs t d ds. w = JObj gs \<and>
           map_of gs ''title'' = Some (JStr t) \<and> trim t \<noteq> [] \<and>
           map_of gs ''description'' = Some (JStr d) \<and> trim d \<noteq> [] \<and>
           map_of gs ''deliverables'' = Some (JArr ds) \<and>
           (\<forall>x \<in> set ds. \<exists>hs t' d'. x = JObj hs \<and>
              map_of hs ''title'' = Some (JStr t') \<and> trim t' \<noteq> [] \<and>
              map_of hs ''description'' = Some (JStr d') \<and> trim d' \<noteq> [])))"
  unfolding isProjectPlan_iff isWorkstream_iff isDeliverable_iff ..

text \<open>
  C6. In a message with two blocks, where the first opening and the first closing
  sentinel enclose a valid plan, only that first pair is consumed: the second block,
  tags and payload, is part of \<open>afterText\<close> as it stands.
\<close>

theorem C6_first_pair_only:
  assumes "\<not> sublist OPEN before" and "\<not> sublist CLOSE before"
    and "\<not> sublist CLOSE payload1"
    and "JSON_parse (trim payload1) = Inr v" and "isProjectPlan v"
  shows "parseProjectPlanMessage JSON_parse
           (before @ OPEN @ payload1 @ CLOSE @ between @ OPEN @ payload2 @ CLOSE @ rest)
           sideChannelPlan =
         Inr \<lparr>beforeText = before,
              afterText = between @ OPEN @ payload2 @ CLOSE @ rest,
              projectPlan = Some v\<rparr>"
  using assms by (rule parse_tagged_valid)

text \<open>
  C7. For every content, every side-channel value and every behaviour of the decoder,
  the parser returns a value and raises nothing; when the payload does not decode,
  when the decoded value is rejected, and when there is no block and no valid
  side-channel plan, the returned value has no plan.
\<close>

theorem C7_total:
  "\<exists>r. parseProjectPlanMessage JSON_parse content sideChannelPlan = Inr r \<and>
       (\<forall>tagged e. splitByProjectPlanTag content = Some tagged \<and>
            JSON_parse (jsonText tagged) = Inl e \<longrightarrow> projectPlan r = None) \<and>
       (\<forall>tagged v. splitByProjectPlanTag content = Some tagged \<and>
            JSON_parse (jsonText tagged) = Inr v \<and> \<not> isProjectPlan v \<longrightarrow> projectPlan r = None) \<and>
       (splitByProjectPlanTag content = None \<and>
            (\<forall>p. sideChannelPlan = Some p \<longrightarrow> \<not> isProjectPlan p) \<longrightarrow> projectPlan r = None)"
  by (auto simp: parseProjectPlanMessage_def try_catch_def split: option.splits sum.splits)

text \<open>
  C8, as the code has it. The options of the call carry the project-plan system prompt
  exactly when the text contains, letter case ignored, \<open>project\<close>, then one or more
  white-space characters, then \<open>plan\<close>; otherwise they carry no system prompt.
\<close>

theorem C8_plan_request_detection:
  "systemPrompt (sendMessageOptions text llmModel) =
     (if (\<exists>pre a w b post. text = pre @ a @ w @ b @ post \<and>
            map canonicalize a = map canonicalize ''project'' \<and>
            w \<noteq> [] \<and> list_all is_ws w \<and>
            map canonicalize b = map canonicalize ''plan'')
      then Some buildProjectPlanSystemPrompt else None)"
  unfolding sendMessageOptions_def Let_def isProjectPlanRequest_iff by simp

text \<open>
  C9. The message body consists, in this order, of the trimmed \<open>beforeText\<close> if it is
  non-empty, the plan preview if a plan is present, and the trimmed \<open>afterText\<close> if it
  is non-empty. A message that is only a block with a valid plan renders as the plan
  preview alone.
\<close>

theorem C9_regions:
  "(\<exists>parsed. parseProjectPlanMessage JSON_parse content sideChannelPlan = Inr parsed \<and>
      MessageBody JSON_parse (Message r content sideChannelPlan) =
        Inr ((if trim (beforeText parsed) \<noteq> [] then [TextDiv (trim (beforeText parsed))] else []) @
             (case projectPlan parsed of Some p \<Rightarrow> [ProjectPlanPreview p] | None \<Rightarrow> []) @
             (if trim (afterText parsed) \<noteq> [] then [TextDiv (trim (afterText parsed))] else []))) \<and>
   (\<not> sublist CLOSE payload \<and> JSON_parse (trim payload) = Inr v \<and> isProjectPlan v \<longrightarrow>
      MessageBody JSON_parse (Message r (OPEN @ payload @ CLOSE) sideChannelPlan) =
        Inr [ProjectPlanPreview v])"
proof (intro conjI impI)
  from parse_returns_valid[of JSON_parse content sideChannelPlan]
  obtain parsed where p: "parseProjectPlanMessage JSON_parse content sideChannelPlan = Inr parsed"
    and v: "\<forall>p. projectPlan parsed = Some p \<longrightarrow> isProjectPlan p" by blast
  from MessageBody_of_parsed[OF p v] p
  show "\<exists>parsed. parseProjectPlanMessage JSON_parse content sideChannelPlan = Inr parsed \<and>
      MessageBody JSON_parse (Message r content sideChannelPlan) =
        Inr ((if trim (beforeText parsed) \<noteq> [] then [TextDiv (trim (beforeText parsed))] else []) @
             (case projectPlan parsed of Some p \<Rightarrow> [ProjectPlanPreview p] | None \<Rightarrow> []) @
             (if trim (afterText parsed) \<noteq> [] then [TextDiv (trim (afterText parsed))] else []))"
    by blast
next
  assume a: "\<not> sublist CLOSE payload \<and> JSON_parse (trim payload) = Inr v \<and> isProjectPlan v"
  have "parseProjectPlanMessage JSON_parse ([] @ OPEN @ payload @ CLOSE @ []) sideChannelPlan =
          Inr \<lparr>beforeText = [], afterText = [], projectPlan = Some v\<rparr>"
    using a by (intro parse_tagged_valid) (simp_all add: OPEN_def CLOSE_def)
  then have p: "parseProjectPlanMessage JSON_parse (OPEN @ payload @ CLOSE) sideChannelPlan =
          Inr \<lparr>beforeText = [], afterText = [], projectPlan = Some v\<rparr>" by simp
  from a have "truthy v" by (simp add: isProjectPlan_truthy)
  with p show "MessageBody JSON_parse (Message r (OPEN @ payload @ CLOSE) sideChannelPlan) =
        Inr [ProjectPlanPreview v]"
    by (simp add: MessageBody_def trim_Nil)
qed

text \<open>
  C10. The validator reads the properties \<open>workstreams\<close>, \<open>title\<close>, \<open>description\<close> and
  \<open>deliverables\<close> only: an object with a conforming \<open>workstreams\<close> array is accepted
  whatever other properties it, its workstreams or their deliverables carry, and the
  parser returns the decoded value itself as the plan.
\<close>

theorem C10_extra_fields_pass:
  assumes "map_of fs ''workstreams'' = Some (JArr ws)"
    and "\<forall>w \<in> set ws. \<exists>gs t d ds. w = JObj gs \<and>
           map_of gs ''title'' = Some (JStr t) \<and> trim t \<noteq> [] \<and>
           map_of gs ''description'' = Some (JStr d) \<and> trim d \<noteq> [] \<and>
           map_of gs ''deliverables'' = Some (JArr ds) \<and>
           (\<forall>x \<in> set ds. \<exists>hs t' d'. x = JObj hs \<and>
              map_of hs ''title'' = Some (JStr t') \<and> trim t' \<noteq> [] \<and>
              map_of hs ''description'' = Some (JStr d') \<and> trim d' \<noteq> [])"
    and "indexOf content OPEN \<noteq> -1"
    and "indexOf content OPEN < indexOf content CLOSE"
    and "JSON_parse (trim (slice content (indexOf content OPEN + int (length OPEN))
                             (indexOf content CLOSE))) = Inr (JObj fs)"
  shows "isProjectPlan (JObj fs) \<and>
         parseProjectPlanMessage JSON_parse content sideChannelPlan =
           Inr \<lparr>beforeText = take (nat (indexOf content OPEN)) content,
                afterText = drop (nat (indexOf content CLOSE) + length CLOSE) content,
                projectPlan = Some (JObj fs)\<rparr>"
proof -
  from assms(1,2) have v: "isProjectPlan (JObj fs)"
    unfolding isProjectPlan_iff isWorkstream_iff isDeliverable_iff by blast
  with assms(5) show ?thesis
    by (simp add: parseProjectPlanMessage_def split_some[OF assms(3,4)] try_catch_def)
qed

section \<open>The claims on concrete messages\<close>

text \<open>
  Each theorem above is applied to a concrete message, decoded by \<open>json_decode\<close>; where
  the specification says something else than the code does, the message shows it.
\<close>

theorem C2_witness:
  "indexOf msg_bad_json OPEN \<noteq> -1 \<and>
   indexOf msg_bad_json OPEN < indexOf msg_bad_json CLOSE \<and>
   json_decode (trim (slice msg_bad_json (indexOf msg_bad_json OPEN + int (length OPEN))
                        (indexOf msg_bad_json CLOSE))) = Inl SyntaxError \<and>
   parseProjectPlanMessage json_decode msg_bad_json None =
     Inr \<lparr>beforeText = msg_bad_json, afterText = [], projectPlan = None\<rparr>"
proof -
  have h1: "indexOf msg_bad_json OPEN \<noteq> -1" by code_simp
  have h2: "indexOf msg_bad_json OPEN < indexOf msg_bad_json CLOSE" by code_simp
  have h3: "json_decode (trim (slice msg_bad_json (indexOf msg_bad_json OPEN + int (length OPEN))
                        (indexOf msg_bad_json CLOSE))) = Inl SyntaxError" by code_simp
  from h1 h2 h3 C2_malformed_json_fail_closed[where JSON_parse = json_decode and sideChannelPlan = None, OF h1 h2 h3] show ?thesis by blast
qed

theorem C1_failing_input_witness:
  \<open>parseProjectPlanMessage json_decode msg_bad_shape None =
     Inr \<lparr>beforeText = ''X'', afterText = ''Y'', projectPlan = None\<rparr> \<and>
   MessageBody json_decode
       (Message Assistant (OPEN @ ''{"workstreams": [{"title": "t"}]}'' @ CLOSE) None) = Inr []\<close>
  using C1_invalid_shape_not_fail_closed by blast

theorem C3_witness:
  "indexOf msg_reversed CLOSE \<le> indexOf msg_reversed OPEN \<and>
   parseProjectPlanMessage json_decode msg_reversed (Some (json_of_plan plan_example)) =
     Inr \<lparr>beforeText = msg_reversed, afterText = [],
          projectPlan = Some (json_of_plan plan_example)\<rparr> \<and>
   parseProjectPlanMessage json_decode msg_reversed (Some json_bad_shape) =
     Inr \<lparr>beforeText = msg_reversed, afterText = [], projectPlan = None\<rparr>"
proof -
  have h: "indexOf msg_reversed CLOSE \<le> indexOf msg_reversed OPEN" by code_simp
  then have h': "\<not> sublist OPEN msg_reversed \<or> \<not> sublist CLOSE msg_reversed \<or>
           indexOf msg_reversed CLOSE \<le> indexOf msg_reversed OPEN" by blast
  have v: "isProjectPlan (json_of_plan plan_example)" by code_simp
  have n: "\<not> isProjectPlan json_bad_shape" by code_simp
  from C3_no_block_side_channel[where JSON_parse = json_decode and sideChannelPlan = "Some (json_of_plan plan_example)", OF h']
    C3_no_block_side_channel[where JSON_parse = json_decode and sideChannelPlan = "Some json_bad_shape", OF h'] h v n
  show ?thesis by simp
qed

theorem C4_counterexample:
  \<open>plan_ok (ProjectPlan []) \<and>
   json_decode (trim ''{"workstreams":[]}'') = Inr (json_of_plan (ProjectPlan [])) \<and>
   parseProjectPlanMessage json_decode
       (''</project_plan>'' @ OPEN @ ''{"workstreams":[]}'' @ CLOSE @ ''done'') None \<noteq>
     Inr \<lparr>beforeText = ''</project_plan>'', afterText = ''done'',
          projectPlan = Some (json_of_plan (ProjectPlan []))\<rparr>\<close>
  by code_simp

theorem C4_witness:
  "plan_ok plan_example \<and>
   json_decode (trim plan_example_text) = Inr (json_of_plan plan_example) \<and>
   \<not> sublist OPEN ''Here is the plan: '' \<and> \<not> sublist CLOSE ''Here is the plan: '' \<and>
   \<not> sublist CLOSE plan_example_text \<and>
   parseProjectPlanMessage json_decode
       (''Here is the plan: '' @ OPEN @ plan_example_text @ CLOSE @ '' Good luck.'') None =
     Inr \<lparr>beforeText = ''Here is the plan: '', afterText = '' Good luck.'',
          projectPlan = Some (json_of_plan plan_example)\<rparr>"
proof -
  have h1: "plan_ok plan_example" by code_simp
  have h2: "json_decode (trim plan_example_text) = Inr (json_of_plan plan_example)" by code_simp
  have h3: "\<not> sublist OPEN ''Here is the plan: ''" by code_simp
  have h4: "\<not> sublist CLOSE ''Here is the plan: ''" by code_simp
  have h5: "\<not> sublist CLOSE plan_example_text" by code_simp
  from h1 h2 h3 h4 h5 C4_round_trip[where JSON_parse = json_decode and after = "'' Good luck.''" and sideChannelPlan = None, OF h1 h2 h3 h4 h5]
  show ?thesis by blast
qed

theorem C5_witness:
  "isProjectPlan json_with_extras \<and> \<not> isProjectPlan json_blank_title \<and>
   \<not> isProjectPlan json_bad_shape"
proof -
  have a: "\<exists>fs ws. json_with_extras = JObj fs \<and> map_of fs ''workstreams'' = Some (JArr ws) \<and>
        (\<forall>w \<in> set ws. \<exists>gs t d ds. w = JObj gs \<and>
           map_of gs ''title'' = Some (JStr t) \<and> trim t \<noteq> [] \<and>
           map_of gs ''description'' = Some (JStr d) \<and> trim d \<noteq> [] \<and>
           map_of gs ''deliverables'' = Some (JArr ds) \<and>
           (\<forall>x \<in> set ds. \<exists>hs t' d'. x = JObj hs \<and>
              map_of hs ''title'' = Some (JStr t') \<and> trim t' \<noteq> [] \<and>
              map_of hs ''description'' = Some (JStr d') \<and> trim d' \<noteq> []))"
    by (simp add: json_with_extras_def trim_def is_ws_def)
  have b: "\<not> (\<exists>fs ws. json_blank_title = JObj fs \<and> map_of fs ''workstreams'' = Some (JArr ws) \<and>
        (\<forall>w \<in> set ws. \<exists>gs t d ds. w = JObj gs \<and>
           map_of gs ''title'' = Some (JStr t) \<and> trim t \<noteq> [] \<and>
           map_of gs ''description'' = Some (JStr d) \<and> trim d \<noteq> [] \<and>
           map_of gs ''deliverables'' = Some (JArr ds) \<and>
           (\<forall>x \<in> set ds. \<exists>hs t' d'. x = JObj hs \<and>
              map_of hs ''title'' = Some (JStr t') \<and> trim t' \<noteq> [] \<and>
              map_of hs ''description'' = Some (JStr d') \<and> trim d' \<noteq> [])))"
    by (simp add: json_blank_title_def trim_def is_ws_def)
  have c: "\<not> (\<exists>fs ws. json_bad_shape = JObj fs \<and> map_of fs ''workstreams'' = Some (JArr ws) \<and>
        (\<forall>w \<in> set ws. \<exists>gs t d ds. w = JObj gs \<and>
           map_of gs ''title'' = Some (JStr t) \<and> trim t \<noteq> [] \<and>
           map_of gs ''description'' = Some (JStr d) \<and> trim d \<noteq> [] \<and>
           map_of gs ''deliverables'' = Some (JArr ds) \<and>
           (\<forall>x \<in> set ds. \<exists>hs t' d'. x = JObj hs \<and>
              map_of hs ''title'' = Some (JStr t') \<and> trim t' \<noteq> [] \<and>
              map_of hs ''description'' = Some (JStr d') \<and> trim d' \<noteq> [])))"
    by (simp add: json_bad_shape_def)
  from a b c show ?thesis
    unfolding C5_validator_all_or_nothing[of json_with_extras]
      C5_validator_all_or_nothing[of json_blank_title]
      C5_validator_all_or_nothing[of json_bad_shape]
    by blast
qed

theorem C6_witness:
  \<open>\<not> sublist OPEN ''Intro '' \<and> \<not> sublist CLOSE ''Intro '' \<and>
   \<not> sublist CLOSE plan_example_text \<and>
   json_decode (trim plan_example_text) = Inr (json_of_plan plan_example) \<and>
   isProjectPlan (json_of_plan plan_example) \<and>
   parseProjectPlanMessage json_decode
       (''Intro '' @ OPEN @ plan_example_text @ CLOSE @ '' and '' @ OPEN @
        ''{"workstreams":[]}'' @ CLOSE @ '' end'') None =
     Inr \<lparr>beforeText = ''Intro '',
          afterText = '' and '' @ OPEN @ ''{"workstreams":[]}'' @ CLOSE @ '' end'',
          projectPlan = Some (json_of_plan plan_example)\<rparr>\<close>
proof -
  have h1: "\<not> sublist OPEN ''Intro ''" by code_simp
  have h2: "\<not> sublist CLOSE ''Intro ''" by code_simp
  have h3: "\<not> sublist CLOSE plan_example_text" by code_simp
  have h4: "json_decode (trim plan_example_text) = Inr (json_of_plan plan_example)" by code_simp
  have h5: "isProjectPlan (json_of_plan plan_example)" by code_simp
  from h1 h2 h3 h4 h5
    C6_first_pair_only[where JSON_parse = json_decode and sideChannelPlan = None
      and between = "'' and ''" and rest = "'' end''", OF h1 h2 h3 h4 h5]
  show ?thesis by blast
qed

theorem C7_witness:
  "\<exists>r. parseProjectPlanMessage json_decode msg_bad_json None = Inr r \<and> projectPlan r = None"
proof -
  have s: "splitByProjectPlanTag msg_bad_json =
      Some \<lparr>tag_beforeText = ''X'', jsonText = ''{not json'', tag_afterText = ''Y''\<rparr>"
    by code_simp
  have d: "json_decode ''{not json'' = Inl SyntaxError" by code_simp
  from C7_total[of json_decode msg_bad_json None] s d show ?thesis by auto
qed

theorem C8_counterexample:
  "systemPrompt (sendMessageOptions ''project  plan'' None) = Some buildProjectPlanSystemPrompt \<and>
   \<not> spec_contains_phrase ''project  plan''"
  by code_simp

theorem C8_witness:
  "systemPrompt (sendMessageOptions ''Draft a Project plan'' None) =
     Some buildProjectPlanSystemPrompt \<and>
   systemPrompt (sendMessageOptions ''my projectplan'' None) = None \<and>
   (\<exists>pre a w b post. ''Draft a Project plan'' = pre @ a @ w @ b @ post \<and>
            map canonicalize a = map canonicalize ''project'' \<and>
            w \<noteq> [] \<and> list_all is_ws w \<and>
            map canonicalize b = map canonicalize ''plan'') \<and>
   \<not> (\<exists>pre a w b post. ''my projectplan'' = pre @ a @ w @ b @ post \<and>
            map canonicalize a = map canonicalize ''project'' \<and>
            w \<noteq> [] \<and> list_all is_ws w \<and>
            map canonicalize b = map canonicalize ''plan'')"
proof -
  have a: "systemPrompt (sendMessageOptions ''Draft a Project plan'' None) =
     Some buildProjectPlanSystemPrompt" by code_simp
  have b: "systemPrompt (sendMessageOptions ''my projectplan'' None) = None" by code_simp
  from a b C8_plan_request_detection[of "''Draft a Project plan''" None]
    C8_plan_request_detection[of "''my projectplan''" None]
  show ?thesis by (metis option.distinct(1))
qed

theorem C9_witness:
  \<open>\<not> sublist CLOSE plan_example_text \<and>
   json_decode (trim plan_example_text) = Inr (json_of_plan plan_example) \<and>
   isProjectPlan (json_of_plan plan_example) \<and>
   MessageBody json_decode (Message Assistant (OPEN @ plan_example_text @ CLOSE) None) =
     Inr [ProjectPlanPreview (json_of_plan plan_example)]\<close>
proof -
  have h3: "\<not> sublist CLOSE plan_example_text" by code_simp
  have h4: "json_decode (trim plan_example_text) = Inr (json_of_plan plan_example)" by code_simp
  have h5: "isProjectPlan (json_of_plan plan_example)" by code_simp
  from h3 h4 h5
    C9_regions[where JSON_parse = json_decode and payload = plan_example_text
      and v = "json_of_plan plan_example" and r = Assistant and sideChannelPlan = None]
  show ?thesis by blast
qed

theorem C10_witness:
  "indexOf msg_with_extras OPEN \<noteq> -1 \<and>
   indexOf msg_with_extras OPEN < indexOf msg_with_extras CLOSE \<and>
   json_decode (trim (slice msg_with_extras (indexOf msg_with_extras OPEN + int (length OPEN))
                        (indexOf msg_with_extras CLOSE))) = Inr json_with_extras \<and>
   isProjectPlan json_with_extras \<and>
   parseProjectPlanMessage json_decode msg_with_extras None =
     Inr \<lparr>beforeText = ''A'', afterText = ''B'', projectPlan = Some json_with_extras\<rparr>"
proof -
  let ?fs = "[(''version'', JNum 2),
           (''workstreams'', JArr
              [JObj [(''title'', JStr ''Build''), (''owner'', JStr ''ann''),
                     (''description'', JStr ''Do it''),
                     (''deliverables'', JArr
                        [JObj [(''title'', JStr ''API''), (''description'', JStr ''REST''),
                               (''done'', JBool False)]])]])]"
  let ?ws = "[JObj [(''title'', JStr ''Build''), (''owner'', JStr ''ann''),
                     (''description'', JStr ''Do it''),
                     (''deliverables'', JArr
                        [JObj [(''title'', JStr ''API''), (''description'', JStr ''REST''),
                               (''done'', JBool False)]])]]"
  have e: "json_with_extras = JObj ?fs" by (simp add: json_with_extras_def)
  have h1: "map_of ?fs ''workstreams'' = Some (JArr ?ws)" by simp
  have h2: "\<forall>w \<in> set ?ws. \<exists>gs t d ds. w = JObj gs \<and>
           map_of gs ''title'' = Some (JStr t) \<and> trim t \<noteq> [] \<and>
           map_of gs ''description'' = Some (JStr d) \<and> trim d \<noteq> [] \<and>
           map_of gs ''deliverables'' = Some (JArr ds) \<and>
           (\<forall>x \<in> set ds. \<exists>hs t' d'. x = JObj hs \<and>
              map_of hs ''title'' = Some (JStr t') \<and> trim t' \<noteq> [] \<and>
              map_of hs ''description'' = Some (JStr d') \<and> trim d' \<noteq> [])"
    by (simp add: trim_def is_ws_def)
  have h3: "indexOf msg_with_extras OPEN \<noteq> -1" by code_simp
  have h4: "indexOf msg_with_extras OPEN < indexOf msg_with_extras CLOSE" by code_simp
  have h5': "json_decode (trim (slice msg_with_extras (indexOf msg_with_extras OPEN + int (length OPEN))
                        (indexOf msg_with_extras CLOSE))) = Inr json_with_extras" by code_simp
  then have h5: "json_decode (trim (slice msg_with_extras (indexOf msg_with_extras OPEN + int (length OPEN))
                        (indexOf msg_with_extras CLOSE))) = Inr (JObj ?fs)" unfolding e .
  have t: "take (nat (indexOf msg_with_extras OPEN)) msg_with_extras = ''A''" by code_simp
  have d: "drop (nat (indexOf msg_with_extras CLOSE) + length CLOSE) msg_with_extras = ''B''"
    by code_simp
  from C10_extra_fields_pass[where JSON_parse = json_decode and sideChannelPlan = None,
      OF h1 h2 h3 h4 h5]
  have "isProjectPlan json_with_extras \<and>
    parseProjectPlanMessage json_decode msg_with_extras None =
     Inr \<lparr>beforeText = ''A'', afterText = ''B'', projectPlan = Some json_with_extras\<rparr>"
    unfolding t d e[symmetric] .
  with h3 h4 h5' show ?thesis by blast
qed

end
